theory Spec2Isabelle
  imports Main
begin

section \<open>Index reconciliation of typed-mongo\<close>

text \<open>
  The development embeds \<^verbatim>\<open>Model.syncIndexes\<close> (src/model.ts) and
  \<^verbatim>\<open>TypedMongo.model\<close> / \<^verbatim>\<open>TypedMongo.syncIndexes\<close> (src/index.ts).
  The MongoDB driver is an external collaborator: its three index commands are
  parameters of the model. Every command takes the state of the store and returns
  its outcome together with the state it leaves behind, also when it fails, so that
  what a failed run has already done to the store stays visible.
\<close>

subsection \<open>Driver values\<close>

text \<open>
  A thrown value. \<^verbatim>\<open>error instanceof MongoServerError\<close> is the first constructor;
  its \<^verbatim>\<open>code\<close> and \<^verbatim>\<open>codeName\<close> may be undefined.
\<close>

datatype error =
    MongoServerError "int option" "string option"
  | OtherError string

text \<open>
  The index commands of a \<^verbatim>\<open>Db\<close>, addressed by collection name.
  \<open>'s\<close> is the state of the store, \<open>'o\<close> the type of
  \<^verbatim>\<open>IndexInformationOptions\<close>, \<open>'d\<close> the type of \<^verbatim>\<open>IndexDescription\<close>.
\<close>

record ('s, 'o, 'd) Db =
  listIndexes :: "string \<Rightarrow> 'o option \<Rightarrow> 's \<Rightarrow> (error + string list) \<times> 's"
  createIndexes :: "string \<Rightarrow> 'd list \<Rightarrow> 's \<Rightarrow> (error + string list) \<times> 's"
  dropIndex :: "string \<Rightarrow> string \<Rightarrow> 's \<Rightarrow> (error + unit) \<times> 's"

text \<open>\<^verbatim>\<open>db.collection(name)\<close>: a handle made of the database and the collection name.\<close>

record ('s, 'o, 'd) Collection =
  db :: "('s, 'o, 'd) Db"
  collectionName :: string

definition Db_collection :: "('s, 'o, 'd) Db \<Rightarrow> string \<Rightarrow> ('s, 'o, 'd) Collection" where
  "Db_collection d name = \<lparr>Collection.db = d, Collection.collectionName = name\<rparr>"

abbreviation Collection_listIndexes ::
  "('s, 'o, 'd) Collection \<Rightarrow> 'o option \<Rightarrow> 's \<Rightarrow> (error + string list) \<times> 's" where
  "Collection_listIndexes c \<equiv> listIndexes (Collection.db c) (Collection.collectionName c)"

abbreviation Collection_createIndexes ::
  "('s, 'o, 'd) Collection \<Rightarrow> 'd list \<Rightarrow> 's \<Rightarrow> (error + string list) \<times> 's" where
  "Collection_createIndexes c \<equiv> createIndexes (Collection.db c) (Collection.collectionName c)"

abbreviation Collection_dropIndex ::
  "('s, 'o, 'd) Collection \<Rightarrow> string \<Rightarrow> 's \<Rightarrow> (error + unit) \<times> 's" where
  "Collection_dropIndex c \<equiv> dropIndex (Collection.db c) (Collection.collectionName c)"

subsection \<open>Model (src/model.ts)\<close>

record 'd ModelOptions =
  indexes :: "'d list option"

record SyncIndexesResult =
  created :: "string list"
  dropped :: "string list"

record ('s, 'o, 'd) Model =
  collection :: "('s, 'o, 'd) Collection"
  indexes :: "'d list option"

text \<open>The constructor; \<^verbatim>\<open>options = {}\<close> is \<open>\<lparr>indexes = None\<rparr>\<close>.\<close>

definition new_Model ::
  "('s, 'o, 'd) Db \<Rightarrow> string \<Rightarrow> 'd ModelOptions \<Rightarrow> ('s, 'o, 'd) Model" where
  "new_Model d name options =
     \<lparr>Model.collection = Db_collection d name,
      Model.indexes = ModelOptions.indexes options\<rparr>"

definition getCollection :: "('s, 'o, 'd) Model \<Rightarrow> ('s, 'o, 'd) Collection" where
  "getCollection m = Model.collection m"

text \<open>
  The test of the \<^verbatim>\<open>catch\<close> block of step 1:
  \<^verbatim>\<open>error instanceof MongoServerError\<close> and then
  \<^verbatim>\<open>error.code === 26 || error.codeName === 'NamespaceNotFound'\<close>.
\<close>

fun isNamespaceNotFound :: "error \<Rightarrow> bool" where
  "isNamespaceNotFound (MongoServerError code codeName) =
     (code = Some 26 \<or> codeName = Some ''NamespaceNotFound'')"
| "isNamespaceNotFound (OtherError msg) = False"

text \<open>
  Step 3, the two \<^verbatim>\<open>filter\<close> calls. \<^verbatim>\<open>Set.has\<close> on strings is string equality.
\<close>

definition toDropIndexNames :: "string list \<Rightarrow> string list \<Rightarrow> string list" where
  "toDropIndexNames oldIndexNames newIndexNames =
     filter (\<lambda>item. \<not> (item \<in> set newIndexNames)) oldIndexNames"

definition createdIndexNames :: "string list \<Rightarrow> string list \<Rightarrow> string list" where
  "createdIndexNames oldIndexNames newIndexNames =
     filter (\<lambda>item. \<not> (item \<in> set oldIndexNames)) newIndexNames"

text \<open>
  Step 4, the \<^verbatim>\<open>for\<close> loop over \<^verbatim>\<open>toDropIndexNames\<close>. The third argument is
  \<^verbatim>\<open>droppedIndexNames\<close> as accumulated so far. A rejected \<^verbatim>\<open>dropIndex\<close> leaves the
  loop with the error; the accumulator is lost with it.
\<close>

fun dropLoop ::
  "('s, 'o, 'd) Collection \<Rightarrow> string list \<Rightarrow> string list \<Rightarrow> 's \<Rightarrow> (error + string list) \<times> 's" where
  "dropLoop c [] droppedIndexNames s = (Inr droppedIndexNames, s)"
| "dropLoop c (indexName # rest) droppedIndexNames s =
     (if indexName = ''_id_'' then dropLoop c rest droppedIndexNames s
      else (case Collection_dropIndex c indexName s of
              (Inl err, s') \<Rightarrow> (Inl err, s')
            | (Inr u, s') \<Rightarrow> dropLoop c rest (droppedIndexNames @ [indexName]) s'))"

text \<open>
  \<^verbatim>\<open>Model.syncIndexes\<close>. When the listing throws, \<^verbatim>\<open>oldIndexNames\<close> still has its
  initial value \<^verbatim>\<open>[]\<close>; the \<^verbatim>\<open>catch\<close> block assigns \<^verbatim>\<open>[]\<close> again when the error
  is a missing namespace, and then reaches \<^verbatim>\<open>throw error\<close>, which stands after the
  \<^verbatim>\<open>if\<close> and so runs on both branches. The listing of the driver is taken with
  the \<^verbatim>\<open>map\<close> to names already applied.
\<close>

definition Model_syncIndexes ::
  "('s, 'o, 'd) Model \<Rightarrow> 'o option \<Rightarrow> 's \<Rightarrow> (error + SyncIndexesResult) \<times> 's" where
  "Model_syncIndexes m options s =
     (case Model.indexes m of
        None \<Rightarrow> (Inr \<lparr>created = [], dropped = []\<rparr>, s)
      | Some idxs \<Rightarrow>
          if length idxs = 0 then (Inr \<lparr>created = [], dropped = []\<rparr>, s)
          else
            (case Collection_listIndexes (Model.collection m) options s of
               (Inl err, s1) \<Rightarrow>
                 (let oldIndexNames = (if isNamespaceNotFound err then [] else ([] :: string list))
                  in (Inl err, s1))
             | (Inr oldIndexNames, s1) \<Rightarrow>
                 (case Collection_createIndexes (Model.collection m) idxs s1 of
                    (Inl err, s2) \<Rightarrow> (Inl err, s2)
                  | (Inr newIndexNames, s2) \<Rightarrow>
                      (case dropLoop (Model.collection m)
                              (toDropIndexNames oldIndexNames newIndexNames) [] s2 of
                         (Inl err, s3) \<Rightarrow> (Inl err, s3)
                       | (Inr droppedIndexNames, s3) \<Rightarrow>
                           (Inr \<lparr>created = createdIndexNames oldIndexNames newIndexNames,
                                 dropped = droppedIndexNames\<rparr>, s3)))))"

subsection \<open>TypedMongo (src/index.ts)\<close>

record SyncIndexesEntry =
  collectionName :: string
  created :: "string list"
  dropped :: "string list"

type_synonym SyncIndexesResults = "SyncIndexesEntry list"

text \<open>
  A JavaScript \<^verbatim>\<open>Map\<close> keeps its entries in the order in which their keys were first
  inserted; \<^verbatim>\<open>set\<close> on a key that is present replaces the value where it stands.
\<close>

fun Map_set :: "'k \<Rightarrow> 'v \<Rightarrow> ('k \<times> 'v) list \<Rightarrow> ('k \<times> 'v) list" where
  "Map_set k v [] = [(k, v)]"
| "Map_set k v ((k', v') # entries) =
     (if k' = k then (k, v) # entries else (k', v') # Map_set k v entries)"

definition Map_values :: "('k \<times> 'v) list \<Rightarrow> 'v list" where
  "Map_values entries = map snd entries"

record ('s, 'o, 'd) TypedMongo =
  db :: "('s, 'o, 'd) Db"
  models :: "(string \<times> ('s, 'o, 'd) Model) list"

definition new_TypedMongo :: "('s, 'o, 'd) Db \<Rightarrow> ('s, 'o, 'd) TypedMongo" where
  "new_TypedMongo d = \<lparr>TypedMongo.db = d, models = []\<rparr>"

definition TypedMongo_model ::
  "('s, 'o, 'd) TypedMongo \<Rightarrow> string \<Rightarrow> 'd ModelOptions
     \<Rightarrow> ('s, 'o, 'd) Model \<times> ('s, 'o, 'd) TypedMongo" where
  "TypedMongo_model tm name options =
     (let model = new_Model (TypedMongo.db tm) name options
      in (model, tm\<lparr>models := Map_set name model (models tm)\<rparr>))"

text \<open>The \<^verbatim>\<open>for\<close> loop of \<^verbatim>\<open>TypedMongo.syncIndexes\<close>; the second argument is \<^verbatim>\<open>results\<close>.\<close>

fun syncLoop ::
  "('s, 'o, 'd) Model list \<Rightarrow> SyncIndexesResults \<Rightarrow> 'o option \<Rightarrow> 's
     \<Rightarrow> (error + SyncIndexesResults) \<times> 's" where
  "syncLoop [] results options s = (Inr results, s)"
| "syncLoop (model # rest) results options s =
     (case Model_syncIndexes model options s of
        (Inl err, s') \<Rightarrow> (Inl err, s')
      | (Inr result, s') \<Rightarrow>
          syncLoop rest
            (results @ [\<lparr>collectionName = Collection.collectionName (getCollection model),
                         created = SyncIndexesResult.created result,
                         dropped = SyncIndexesResult.dropped result\<rparr>])
            options s')"

definition TypedMongo_syncIndexes ::
  "('s, 'o, 'd) TypedMongo \<Rightarrow> 'o option \<Rightarrow> 's \<Rightarrow> (error + SyncIndexesResults) \<times> 's" where
  "TypedMongo_syncIndexes tm options s = syncLoop (Map_values (models tm)) [] options s"

text \<open>The entry that the loop of \<^verbatim>\<open>TypedMongo.syncIndexes\<close> pushes for a model and its result.\<close>

definition entryOf :: "('s, 'o, 'd) Model \<Rightarrow> SyncIndexesResult \<Rightarrow> SyncIndexesEntry" where
  "entryOf model result =
     \<lparr>collectionName = Collection.collectionName (getCollection model),
      created = SyncIndexesResult.created result,
      dropped = SyncIndexesResult.dropped result\<rparr>"

text \<open>A sequence of calls \<^verbatim>\<open>tm.model(name, options)\<close>, made in the order of the list.\<close>

fun declareAll ::
  "('s, 'o, 'd) TypedMongo \<Rightarrow> (string \<times> 'd ModelOptions) list \<Rightarrow> ('s, 'o, 'd) TypedMongo" where
  "declareAll tm [] = tm"
| "declareAll tm ((name, options) # decls) =
     declareAll (snd (TypedMongo_model tm name options)) decls"

text \<open>Every model of a registry stands under the name of its own collection.\<close>

definition named :: "(string \<times> ('s, 'o, 'd) Model) list \<Rightarrow> bool" where
  "named entries = (\<forall>(k, m) \<in> set entries. Collection.collectionName (getCollection m) = k)"

subsection \<open>Recording the commands a run issues\<close>

datatype ('o, 'd) call =
    ListIndexes string "'o option"
  | CreateIndexes string "'d list"
  | DropIndex string string

text \<open>
  \<open>traced d\<close> behaves as \<open>d\<close> and appends every command it receives to a log kept
  beside the store's state.
\<close>

definition traced :: "('s, 'o, 'd) Db \<Rightarrow> ('s \<times> ('o, 'd) call list, 'o, 'd) Db" where
  "traced d =
     \<lparr>listIndexes = (\<lambda>name options (s, log).
        (case listIndexes d name options s of
           (r, s') \<Rightarrow> (r, (s', log @ [ListIndexes name options])))),
      createIndexes = (\<lambda>name descs (s, log).
        (case createIndexes d name descs s of
           (r, s') \<Rightarrow> (r, (s', log @ [CreateIndexes name descs])))),
      dropIndex = (\<lambda>name indexName (s, log).
        (case dropIndex d name indexName s of
           (r, s') \<Rightarrow> (r, (s', log @ [DropIndex name indexName]))))\<rparr>"

subsection \<open>The contract of the store\<close>

text \<open>
  What idempotence asks of the store, for one collection, the listing options and the
  desired descriptions \<open>descs\<close>. \<open>N\<close> is the list of names the descriptions resolve
  to; \<open>present s\<close> says that every desired index exists in state \<open>s\<close>.
  \<^item> A listing does not change the store.
  \<^item> A successful \<^verbatim>\<open>createIndexes\<close> returns \<open>N\<close> and leaves every desired index
    present; the listing afterwards shows no name beyond those listed before and \<open>N\<close>.
  \<^item> Where every desired index is present, \<^verbatim>\<open>createIndexes\<close> changes nothing and
    returns \<open>N\<close>, and the listing succeeds and contains \<open>N\<close>.
  \<^item> After a successful \<^verbatim>\<open>dropIndex\<close> the listing succeeds and shows no name beyond
    those listed before, without the dropped one; dropping a name outside \<open>N\<close> leaves
    the desired indexes present.
\<close>

definition store_contract ::
  "('s, 'o, 'd) Db \<Rightarrow> string \<Rightarrow> 'o option \<Rightarrow> 'd list \<Rightarrow> string list \<Rightarrow> ('s \<Rightarrow> bool) \<Rightarrow> bool" where
  "store_contract d name options descs N present \<longleftrightarrow>
     (\<forall>s r s'. listIndexes d name options s = (r, s') \<longrightarrow> s' = s) \<and>
     (\<forall>s M s'. createIndexes d name descs s = (Inr M, s') \<longrightarrow>
        M = N \<and> present s' \<and>
        (\<forall>E. listIndexes d name options s = (Inr E, s) \<longrightarrow>
           (\<exists>E'. listIndexes d name options s' = (Inr E', s') \<and> set E' \<subseteq> set E \<union> set N))) \<and>
     (\<forall>s. present s \<longrightarrow>
        createIndexes d name descs s = (Inr N, s) \<and>
        (\<exists>E. listIndexes d name options s = (Inr E, s) \<and> set N \<subseteq> set E)) \<and>
     (\<forall>s n s' E.
        dropIndex d name n s = (Inr (), s') \<and> listIndexes d name options s = (Inr E, s) \<longrightarrow>
        (\<exists>E'. listIndexes d name options s' = (Inr E', s') \<and> set E' \<subseteq> set E - {n}) \<and>
        (present s \<and> n \<notin> set N \<longrightarrow> present s'))"

subsection \<open>An in-memory store\<close>

text \<open>
  A small store that answers the three commands the way MongoDB does, used for the
  worked instances below. An index is a name with a key pattern; a collection is the
  list of its indexes; a collection that was never written does not exist. Creating
  indexes on a missing collection creates it with its primary-key index \<open>_id_\<close>. A
  description whose name is taken by an index with another key pattern is a conflict
  (code 86). Dropping one of the \<open>locked\<close> names is refused (code 13).
\<close>

type_synonym memIndex = "string \<times> string"
type_synonym memState = "(string \<times> memIndex list) list"

definition mem_listIndexes ::
  "string \<Rightarrow> unit option \<Rightarrow> memState \<Rightarrow> (error + string list) \<times> memState" where
  "mem_listIndexes name options s =
     (case map_of s name of
        None \<Rightarrow> (Inl (MongoServerError (Some 26) (Some ''NamespaceNotFound'')), s)
      | Some ixs \<Rightarrow> (Inr (map fst ixs), s))"

fun mem_add :: "memIndex list \<Rightarrow> memIndex list \<Rightarrow> memIndex list" where
  "mem_add ixs [] = ixs"
| "mem_add ixs (d # descs) =
     mem_add (if fst d \<in> set (map fst ixs) then ixs else ixs @ [d]) descs"

definition mem_createIndexes ::
  "string \<Rightarrow> memIndex list \<Rightarrow> memState \<Rightarrow> (error + string list) \<times> memState" where
  "mem_createIndexes name descs s =
     (let ixs = (case map_of s name of None \<Rightarrow> [(''_id_'', ''_id'')] | Some ixs \<Rightarrow> ixs)
      in if list_ex (\<lambda>d. list_ex (\<lambda>i. fst i = fst d \<and> snd i \<noteq> snd d) ixs) descs
         then (Inl (MongoServerError (Some 86) (Some ''IndexKeySpecsConflict'')), s)
         else (Inr (map fst descs), Map_set name (mem_add ixs descs) s))"

definition mem_dropIndex ::
  "string list \<Rightarrow> string \<Rightarrow> string \<Rightarrow> memState \<Rightarrow> (error + unit) \<times> memState" where
  "mem_dropIndex locked name indexName s =
     (case map_of s name of
        None \<Rightarrow> (Inl (MongoServerError (Some 26) (Some ''NamespaceNotFound'')), s)
      | Some ixs \<Rightarrow>
          if indexName \<in> set locked
          then (Inl (MongoServerError (Some 13) (Some ''Unauthorized'')), s)
          else if indexName \<in> set (map fst ixs)
          then (Inr (), Map_set name (filter (\<lambda>i. fst i \<noteq> indexName) ixs) s)
          else (Inl (MongoServerError (Some 27) (Some ''IndexNotFound'')), s))"

definition memDb :: "string list \<Rightarrow> (memState, unit, memIndex) Db" where
  "memDb locked =
     \<lparr>listIndexes = mem_listIndexes,
      createIndexes = mem_createIndexes,
      dropIndex = mem_dropIndex locked\<rparr>"

text \<open>
  In the in-memory store every description is present when its name is listed and no
  index of that name has another key pattern.
\<close>

definition mem_present :: "string \<Rightarrow> memIndex list \<Rightarrow> memState \<Rightarrow> bool" where
  "mem_present name descs s =
     (case map_of s name of
        None \<Rightarrow> False
      | Some ixs \<Rightarrow>
          list_all (\<lambda>d. fst d \<in> set (map fst ixs) \<and>
                        list_all (\<lambda>i. fst i = fst d \<longrightarrow> snd i = snd d) ixs) descs)"

text \<open>Fixtures of the worked instances: a store with three collections and two registries.\<close>

definition demo_state :: memState where
  "demo_state =
     [(''users'', [(''_id_'', ''_id''), (''name_1'', ''name'')]),
      (''posts'', [(''_id_'', ''_id''), (''age_1'', ''age'')]),
      (''tags'', [(''_id_'', ''_id'')])]"

definition demo_tm ::
  "string list \<Rightarrow> (memState \<times> (unit, memIndex) call list, unit, memIndex) TypedMongo" where
  "demo_tm locked =
     declareAll (new_TypedMongo (traced (memDb locked)))
       [(''users'', \<lparr>ModelOptions.indexes = Some [(''email_1'', ''email'')]\<rparr>),
        (''posts'', \<lparr>ModelOptions.indexes = Some [(''title_1'', ''title'')]\<rparr>),
        (''tags'', \<lparr>ModelOptions.indexes = Some [(''slug_1'', ''slug'')]\<rparr>)]"

definition demo_decls :: "(string \<times> memIndex ModelOptions) list" where
  "demo_decls =
     [(''users'', \<lparr>ModelOptions.indexes = Some [(''email_1'', ''email'')]\<rparr>),
      (''posts'', \<lparr>ModelOptions.indexes = Some [(''title_1'', ''title'')]\<rparr>),
      (''users'', \<lparr>ModelOptions.indexes = Some [(''name_1'', ''name'')]\<rparr>)]"

lemmas mem_defs =
  memDb_def mem_listIndexes_def mem_createIndexes_def mem_dropIndex_def
  traced_def new_Model_def Db_collection_def getCollection_def

lemmas sync_defs =
  TypedMongo_syncIndexes_def Map_values_def TypedMongo_model_def new_TypedMongo_def
  Model_syncIndexes_def toDropIndexNames_def createdIndexNames_def Let_def

section \<open>Properties\<close>

subsection \<open>The drop loop\<close>


lemma dropLoop_result:
  "dropLoop c ns acc s = (Inr acc', s') \<Longrightarrow> acc' = acc @ filter (\<lambda>x. x \<noteq> ''_id_'') ns"
proof (induction ns arbitrary: acc s)
  case Nil
  then show ?case by simp
next
  case (Cons n ns)
  show ?case
  proof (cases "n = ''_id_''")
    case True
    with Cons.prems have "dropLoop c ns acc s = (Inr acc', s')" by simp
    from Cons.IH [OF this] True show ?thesis by simp
  next
    case False
    with Cons.prems obtain s1 where "dropLoop c ns (acc @ [n]) s1 = (Inr acc', s')"
      by (auto split: prod.splits sum.splits)
    from Cons.IH [OF this] False show ?thesis by simp
  qed
qed


lemma dropLoop_traced_log:
  "dropLoop (Db_collection (traced d) name) ns acc (s, log) = (r, (s', log')) \<Longrightarrow>
     \<exists>new. log' = log @ new \<and>
       (\<forall>x \<in> set new. \<exists>i. x = DropIndex name i \<and> i \<in> set ns \<and> i \<noteq> ''_id_'')"
proof (induction ns arbitrary: acc s log)
  case Nil
  then show ?case by simp
next
  case (Cons n ns)
  show ?case
  proof (cases "n = ''_id_''")
    case True
    with Cons.prems have "dropLoop (Db_collection (traced d) name) ns acc (s, log) = (r, (s', log'))"
      by simp
    from Cons.IH [OF this] show ?thesis by fastforce
  next
    case False
    obtain r1 s1 where d: "dropIndex d name n s = (r1, s1)" by (cases "dropIndex d name n s")
    show ?thesis
    proof (cases r1)
      case (Inl e)
      with Cons.prems False d have "log' = log @ [DropIndex name n]"
        by (simp add: Db_collection_def traced_def)
      with False show ?thesis by simp
    next
      case (Inr u)
      with Cons.prems False d have
        "dropLoop (Db_collection (traced d) name) ns (acc @ [n]) (s1, log @ [DropIndex name n]) = (r, (s', log'))"
        by (simp add: Db_collection_def traced_def)
      from Cons.IH [OF this] obtain new where
        "log' = (log @ [DropIndex name n]) @ new"
        "\<forall>x \<in> set new. \<exists>i. x = DropIndex name i \<and> i \<in> set ns \<and> i \<noteq> ''_id_''" by blast
      with False show ?thesis by (intro exI [of _ "DropIndex name n # new"]) fastforce
    qed
  qed
qed


lemma set_toDropIndexNames: "set (toDropIndexNames E M) = set E - set M"
  by (auto simp: toDropIndexNames_def)

lemma set_createdIndexNames: "set (createdIndexNames E M) = set M - set E"
  by (auto simp: createdIndexNames_def)

lemma syncIndexes_steps:
  assumes "Model.indexes m = Some idxs" and "idxs \<noteq> []"
    and "Collection_listIndexes (Model.collection m) options s = (Inr E, s1)"
    and "Collection_createIndexes (Model.collection m) idxs s1 = (Inr M, s2)"
  shows "Model_syncIndexes m options s =
     (case dropLoop (Model.collection m) (toDropIndexNames E M) [] s2 of
        (Inl err, s3) \<Rightarrow> (Inl err, s3)
      | (Inr ds, s3) \<Rightarrow>
          (Inr \<lparr>SyncIndexesResult.created = createdIndexNames E M,
                SyncIndexesResult.dropped = ds\<rparr>, s3))"
  using assms by (simp add: Model_syncIndexes_def)

subsection \<open>Reconciliation of one collection\<close>

text \<open>
  C4. A model whose desired index list is absent or empty: \<^verbatim>\<open>syncIndexes\<close> returns
  \<open>{created: [], dropped: []}\<close> and leaves the state of the store as it was, whatever
  the driver is; in particular, with the recording driver, the log of commands is
  unchanged: no listing, no creation, no drop.
\<close>

theorem syncIndexes_no_indexes_noop:
  "Model.indexes m = None \<or> Model.indexes m = Some [] \<Longrightarrow>
     Model_syncIndexes m options s =
       (Inr \<lparr>SyncIndexesResult.created = [], SyncIndexesResult.dropped = []\<rparr>, s)"
  by (auto simp: Model_syncIndexes_def)

theorem syncIndexes_no_indexes_noop_witness:
  "Model_syncIndexes
     (new_Model (traced (memDb [])) ''tags'' \<lparr>ModelOptions.indexes = Some []\<rparr>) None
     ([(''tags'', [(''_id_'', ''_id''), (''tag_1'', ''tag'')])], []) =
   (Inr \<lparr>SyncIndexesResult.created = [], SyncIndexesResult.dropped = []\<rparr>,
    ([(''tags'', [(''_id_'', ''_id''), (''tag_1'', ''tag'')])], []))"
  using syncIndexes_no_indexes_noop
    [of "new_Model (traced (memDb [])) ''tags'' \<lparr>ModelOptions.indexes = Some []\<rparr>"]
  by (simp add: new_Model_def)

text \<open>
  C1. When the listing of step 1 fails because the collection does not exist (code 26
  or code name \<open>NamespaceNotFound\<close>), \<^verbatim>\<open>syncIndexes\<close> as written rethrows that
  error: the result is the error, and the state is the one the failed listing left,
  so neither \<^verbatim>\<open>createIndexes\<close> nor any drop has run.
\<close>

theorem syncIndexes_namespace_not_found_rethrown:
  "Model.indexes m = Some idxs \<Longrightarrow> idxs \<noteq> [] \<Longrightarrow>
   Collection_listIndexes (Model.collection m) options s = (Inl err, s1) \<Longrightarrow>
   isNamespaceNotFound err \<Longrightarrow>
     Model_syncIndexes m options s = (Inl err, s1)"
  by (simp add: Model_syncIndexes_def)

theorem syncIndexes_namespace_not_found_rethrown_witness:
  "Model_syncIndexes
     (new_Model (traced (memDb [])) ''users''
        \<lparr>ModelOptions.indexes = Some [(''name_1'', ''name'')]\<rparr>) None ([], []) =
   (Inl (MongoServerError (Some 26) (Some ''NamespaceNotFound'')),
    ([], [ListIndexes ''users'' None]))"
  using syncIndexes_namespace_not_found_rethrown
    [of "new_Model (traced (memDb [])) ''users''
           \<lparr>ModelOptions.indexes = Some [(''name_1'', ''name'')]\<rparr>"
        "[(''name_1'', ''name'')]" None "([], [])"
        "MongoServerError (Some 26) (Some ''NamespaceNotFound'')"
        "([], [ListIndexes ''users'' None])"]
  by (simp add: mem_defs)

text \<open>
  C8. When \<^verbatim>\<open>createIndexes\<close> fails, \<^verbatim>\<open>syncIndexes\<close> returns that same error
  and the state the failed command left. With the recording driver the run consists
  of the listing and the creation only: no \<^verbatim>\<open>dropIndex\<close> is issued, so the engine
  removes none of the indexes that existed.
\<close>

theorem syncIndexes_create_failure_no_drop:
  assumes "idxs \<noteq> []"
    and "listIndexes d name options s = (Inr E, s1)"
    and "createIndexes d name idxs s1 = (Inl err, s2)"
  shows "Model_syncIndexes (new_Model d name \<lparr>ModelOptions.indexes = Some idxs\<rparr>) options s =
           (Inl err, s2) \<and>
         Model_syncIndexes (new_Model (traced d) name \<lparr>ModelOptions.indexes = Some idxs\<rparr>)
             options (s, log) =
           (Inl err, (s2, log @ [ListIndexes name options, CreateIndexes name idxs]))"
  using assms
  by (simp add: Model_syncIndexes_def new_Model_def Db_collection_def traced_def)

theorem syncIndexes_create_failure_no_drop_witness:
  "Model_syncIndexes
     (new_Model (traced (memDb [])) ''users''
        \<lparr>ModelOptions.indexes = Some [(''email_1'', ''emailAddress'')]\<rparr>) None
     ([(''users'', [(''_id_'', ''_id''), (''email_1'', ''email''), (''old_1'', ''old'')])], []) =
   (Inl (MongoServerError (Some 86) (Some ''IndexKeySpecsConflict'')),
    ([(''users'', [(''_id_'', ''_id''), (''email_1'', ''email''), (''old_1'', ''old'')])],
     [ListIndexes ''users'' None, CreateIndexes ''users'' [(''email_1'', ''emailAddress'')]]))"
  using syncIndexes_create_failure_no_drop
    [of "[(''email_1'', ''emailAddress'')]" "memDb []" "''users''" None
        "[(''users'', [(''_id_'', ''_id''), (''email_1'', ''email''), (''old_1'', ''old'')])]"
        "[''_id_'', ''email_1'', ''old_1'']"
        "[(''users'', [(''_id_'', ''_id''), (''email_1'', ''email''), (''old_1'', ''old'')])]"
        "MongoServerError (Some 86) (Some ''IndexKeySpecsConflict'')"
        "[(''users'', [(''_id_'', ''_id''), (''email_1'', ''email''), (''old_1'', ''old'')])]"
        "[]"]
  by (simp add: memDb_def mem_listIndexes_def mem_createIndexes_def)




text \<open>
  C2. For every listing \<open>E\<close> and every list \<open>M\<close> returned by \<^verbatim>\<open>createIndexes\<close>:
  the drop loop runs on the names of \<open>E\<close> not in \<open>M\<close>, in the order of \<open>E\<close>, and the
  \<open>created\<close> list is the names of \<open>M\<close> not in \<open>E\<close>, in the order of \<open>M\<close>; as sets these
  are \<open>E - M\<close> and \<open>M - E\<close>. A returned result is therefore a function of the
  two ordered lists alone.
\<close>

theorem syncIndexes_diff:
  assumes "Model.indexes m = Some idxs" and "idxs \<noteq> []"
    and "Collection_listIndexes (Model.collection m) options s = (Inr E, s1)"
    and "Collection_createIndexes (Model.collection m) idxs s1 = (Inr M, s2)"
  shows "Model_syncIndexes m options s =
           (case dropLoop (Model.collection m) (filter (\<lambda>x. x \<notin> set M) E) [] s2 of
              (Inl err, s3) \<Rightarrow> (Inl err, s3)
            | (Inr ds, s3) \<Rightarrow>
                (Inr \<lparr>SyncIndexesResult.created = filter (\<lambda>x. x \<notin> set E) M,
                      SyncIndexesResult.dropped = ds\<rparr>, s3)) \<and>
         set (filter (\<lambda>x. x \<notin> set E) M) = set M - set E \<and>
         set (filter (\<lambda>x. x \<notin> set M) E) = set E - set M \<and>
         (\<forall>r s3. Model_syncIndexes m options s = (Inr r, s3) \<longrightarrow>
            SyncIndexesResult.created r = filter (\<lambda>x. x \<notin> set E) M \<and>
            SyncIndexesResult.dropped r = filter (\<lambda>x. x \<noteq> ''_id_'') (filter (\<lambda>x. x \<notin> set M) E))"
proof -
  have run: "Model_syncIndexes m options s =
           (case dropLoop (Model.collection m) (filter (\<lambda>x. x \<notin> set M) E) [] s2 of
              (Inl err, s3) \<Rightarrow> (Inl err, s3)
            | (Inr ds, s3) \<Rightarrow>
                (Inr \<lparr>SyncIndexesResult.created = filter (\<lambda>x. x \<notin> set E) M,
                      SyncIndexesResult.dropped = ds\<rparr>, s3))"
    using syncIndexes_steps [OF assms]
    unfolding toDropIndexNames_def createdIndexNames_def by simp
  have res: "SyncIndexesResult.created r = filter (\<lambda>x. x \<notin> set E) M \<and>
        SyncIndexesResult.dropped r = filter (\<lambda>x. x \<noteq> ''_id_'') (filter (\<lambda>x. x \<notin> set M) E)"
    if "Model_syncIndexes m options s = (Inr r, s3)" for r s3
  proof -
    from that run obtain ds where
      l: "dropLoop (Model.collection m) (filter (\<lambda>x. x \<notin> set M) E) [] s2 = (Inr ds, s3)" and
      r: "r = \<lparr>SyncIndexesResult.created = filter (\<lambda>x. x \<notin> set E) M,
                SyncIndexesResult.dropped = ds\<rparr>"
      by (auto split: prod.splits sum.splits)
    from dropLoop_result [OF l] r show ?thesis by simp
  qed
  have "set (filter (\<lambda>x. x \<notin> set E) M) = set M - set E"
    and "set (filter (\<lambda>x. x \<notin> set M) E) = set E - set M" by auto
  with run res show ?thesis by blast
qed


theorem syncIndexes_diff_witness:
  "Model_syncIndexes
     (new_Model (memDb []) ''users''
        \<lparr>ModelOptions.indexes = Some [(''name_1'', ''name''), (''age_1'', ''age'')]\<rparr>)
     None [(''users'', [(''_id_'', ''_id''), (''name_1'', ''name''), (''zip_1'', ''zip'')])] =
     (Inr \<lparr>SyncIndexesResult.created = [''age_1''], SyncIndexesResult.dropped = [''zip_1'']\<rparr>,
      [(''users'', [(''_id_'', ''_id''), (''name_1'', ''name''), (''age_1'', ''age'')])]) \<and>
   [''age_1''] = filter (\<lambda>x. x \<notin> set [''_id_'', ''name_1'', ''zip_1'']) [''name_1'', ''age_1''] \<and>
   [''zip_1''] =
     filter (\<lambda>x. x \<noteq> ''_id_'')
       (filter (\<lambda>x. x \<notin> set [''name_1'', ''age_1'']) [''_id_'', ''name_1'', ''zip_1''])"
proof -
  let ?idxs = "[(''name_1'', ''name''), (''age_1'', ''age'')]"
  let ?m = "new_Model (memDb []) ''users'' \<lparr>ModelOptions.indexes = Some ?idxs\<rparr>"
  let ?s = "[(''users'', [(''_id_'', ''_id''), (''name_1'', ''name''), (''zip_1'', ''zip'')])]"
  have i: "Model.indexes ?m = Some ?idxs"
    and n: "?idxs \<noteq> []"
    and l: "Collection_listIndexes (Model.collection ?m) None ?s =
              (Inr [''_id_'', ''name_1'', ''zip_1''], ?s)"
    and c: "Collection_createIndexes (Model.collection ?m) ?idxs ?s =
              (Inr [''name_1'', ''age_1''],
               [(''users'', [(''_id_'', ''_id''), (''name_1'', ''name''), (''zip_1'', ''zip''),
                             (''age_1'', ''age'')])])"
    by (simp_all add: mem_defs)
  have run: "Model_syncIndexes ?m None ?s =
     (Inr \<lparr>SyncIndexesResult.created = [''age_1''], SyncIndexesResult.dropped = [''zip_1'']\<rparr>,
      [(''users'', [(''_id_'', ''_id''), (''name_1'', ''name''), (''age_1'', ''age'')])])"
    by (simp add: mem_defs Model_syncIndexes_def toDropIndexNames_def createdIndexNames_def)
  from syncIndexes_diff [OF i n l c] have
    "\<forall>r s3. Model_syncIndexes ?m None ?s = (Inr r, s3) \<longrightarrow>
       SyncIndexesResult.created r =
         filter (\<lambda>x. x \<notin> set [''_id_'', ''name_1'', ''zip_1'']) [''name_1'', ''age_1''] \<and>
       SyncIndexesResult.dropped r =
         filter (\<lambda>x. x \<noteq> ''_id_'')
           (filter (\<lambda>x. x \<notin> set [''name_1'', ''age_1'']) [''_id_'', ''name_1'', ''zip_1''])"
    by blast
  from this [rule_format, OF run] run show ?thesis by simp
qed

text \<open>
  C3. In every run of \<^verbatim>\<open>syncIndexes\<close>, successful or not and whatever the store
  returns as listing and as created names, no \<^verbatim>\<open>dropIndex\<close> command for \<open>_id_\<close>
  is issued, and a returned \<open>dropped\<close> list does not contain \<open>_id_\<close>.
\<close>

theorem syncIndexes_never_drops_id:
  assumes run: "Model_syncIndexes (new_Model (traced d) name opts) options (s, log) = (r, (s', log'))"
  shows "(\<exists>new. log' = log @ new \<and> (\<forall>c. DropIndex c ''_id_'' \<notin> set new)) \<and>
         (\<forall>res. r = Inr res \<longrightarrow> ''_id_'' \<notin> set (SyncIndexesResult.dropped res))"
proof (cases "ModelOptions.indexes opts = None \<or> ModelOptions.indexes opts = Some []")
  case True
  with run have "log' = log" and "r = Inr \<lparr>SyncIndexesResult.created = [], SyncIndexesResult.dropped = []\<rparr>"
    by (auto simp: Model_syncIndexes_def new_Model_def)
  then show ?thesis by auto
next
  case False
  then obtain idxs where idxs: "ModelOptions.indexes opts = Some idxs" "idxs \<noteq> []" by auto
  obtain r1 s1 where l: "listIndexes d name options s = (r1, s1)"
    by (cases "listIndexes d name options s")
  show ?thesis
  proof (cases r1)
    case (Inl err)
    with run idxs l have "log' = log @ [ListIndexes name options]" and "r = Inl err"
      by (auto simp: Model_syncIndexes_def new_Model_def Db_collection_def traced_def)
    then show ?thesis by auto
  next
    case E: (Inr E)
    obtain r2 s2 where c: "createIndexes d name idxs s1 = (r2, s2)"
      by (cases "createIndexes d name idxs s1")
    show ?thesis
    proof (cases r2)
      case (Inl err)
      with run idxs l E c
      have "log' = log @ [ListIndexes name options, CreateIndexes name idxs]" and "r = Inl err"
        by (auto simp: Model_syncIndexes_def new_Model_def Db_collection_def traced_def)
      then show ?thesis by auto
    next
      case M: (Inr M)
      let ?log2 = "log @ [ListIndexes name options, CreateIndexes name idxs]"
      obtain r3 where
        d: "dropLoop (Db_collection (traced d) name) (toDropIndexNames E M) [] (s2, ?log2) =
              (r3, (s', log'))" and
        r: "r = (case r3 of Inl err \<Rightarrow> Inl err
                 | Inr ds \<Rightarrow> Inr \<lparr>SyncIndexesResult.created = createdIndexNames E M,
                                   SyncIndexesResult.dropped = ds\<rparr>)"
        using run idxs l E c M
        by (auto simp: Model_syncIndexes_def new_Model_def traced_def Db_collection_def
                 split: prod.splits sum.splits)
      from dropLoop_traced_log [OF d] obtain new where
        new: "log' = ?log2 @ new"
          "\<forall>x \<in> set new. \<exists>i. x = DropIndex name i \<and> i \<in> set (toDropIndexNames E M) \<and> i \<noteq> ''_id_''"
        by blast
      have "\<forall>c. DropIndex c ''_id_'' \<notin> set ([ListIndexes name options, CreateIndexes name idxs] @ new)"
        using new(2) by auto
      with new(1) have log: "\<exists>new. log' = log @ new \<and> (\<forall>c. DropIndex c ''_id_'' \<notin> set new)"
        by (intro exI [of _ "[ListIndexes name options, CreateIndexes name idxs] @ new"]) simp
      have "''_id_'' \<notin> set (SyncIndexesResult.dropped res)" if "r = Inr res" for res
      proof -
        from that r obtain ds where r3: "r3 = Inr ds" and ds: "SyncIndexesResult.dropped res = ds"
          by (cases r3) auto
        from dropLoop_result [OF d [unfolded r3]] ds show ?thesis by simp
      qed
      with log show ?thesis by blast
    qed
  qed
qed

theorem syncIndexes_never_drops_id_witness:
  "Model_syncIndexes
     (new_Model (traced (memDb [])) ''tags'' \<lparr>ModelOptions.indexes = Some [(''slug_1'', ''slug'')]\<rparr>)
     None ([(''tags'', [(''_id_'', ''_id''), (''tag_1'', ''tag'')])], []) =
     (Inr \<lparr>SyncIndexesResult.created = [''slug_1''], SyncIndexesResult.dropped = [''tag_1'']\<rparr>,
      ([(''tags'', [(''_id_'', ''_id''), (''slug_1'', ''slug'')])],
       [ListIndexes ''tags'' None, CreateIndexes ''tags'' [(''slug_1'', ''slug'')],
        DropIndex ''tags'' ''tag_1''])) \<and>
   (\<exists>new. [ListIndexes ''tags'' None, CreateIndexes ''tags'' [(''slug_1'', ''slug'')],
           DropIndex ''tags'' ''tag_1''] = [] @ new \<and>
      (\<forall>c. DropIndex c ''_id_'' \<notin> set (new :: (unit, memIndex) call list))) \<and>
   ''_id_'' \<notin> set [''tag_1'']"
proof -
  have run: "Model_syncIndexes
     (new_Model (traced (memDb [])) ''tags'' \<lparr>ModelOptions.indexes = Some [(''slug_1'', ''slug'')]\<rparr>)
     None ([(''tags'', [(''_id_'', ''_id''), (''tag_1'', ''tag'')])], []) =
     (Inr \<lparr>SyncIndexesResult.created = [''slug_1''], SyncIndexesResult.dropped = [''tag_1'']\<rparr>,
      ([(''tags'', [(''_id_'', ''_id''), (''slug_1'', ''slug'')])],
       [ListIndexes ''tags'' None, CreateIndexes ''tags'' [(''slug_1'', ''slug'')],
        DropIndex ''tags'' ''tag_1'']))"
    by (simp add: mem_defs Model_syncIndexes_def toDropIndexNames_def createdIndexNames_def)
  from syncIndexes_never_drops_id [OF run] run show ?thesis by simp
qed




subsection \<open>The registry and the loop over the models\<close>

lemma syncLoop_append:
  "syncLoop (xs @ ys) acc options s =
     (case syncLoop xs acc options s of
        (Inl err, s') \<Rightarrow> (Inl err, s')
      | (Inr acc', s') \<Rightarrow> syncLoop ys acc' options s')"
  by (induction xs arbitrary: acc s) (auto split: prod.splits sum.splits)

lemma syncLoop_success:
  "syncLoop ms acc options s = (Inr res, s') \<Longrightarrow>
     length res = length acc + length ms \<and> take (length acc) res = acc"
proof (induction ms arbitrary: acc s)
  case Nil
  then show ?case by simp
next
  case (Cons m ms)
  from Cons.prems obtain r s1 where
    "syncLoop ms (acc @ [entryOf m r]) options s1 = (Inr res, s')"
    by (auto simp: entryOf_def split: prod.splits sum.splits)
  from Cons.IH [OF this] have len: "length res = length acc + length (m # ms)"
    and tk: "take (Suc (length acc)) res = acc @ [entryOf m r]" by simp_all
  from tk have "take (length acc) (take (Suc (length acc)) res) = acc" by simp
  then have "take (length acc) res = acc" by (simp add: min_def)
  with len show ?case by simp
qed

lemma syncLoop_failure:
  "syncLoop ms acc options s = (Inl err, s') \<Longrightarrow>
     \<exists>k<length ms. \<exists>R s1. syncLoop (take k ms) acc options s = (Inr R, s1) \<and>
        Model_syncIndexes (ms ! k) options s1 = (Inl err, s')"
proof (induction ms arbitrary: acc s)
  case Nil
  then show ?case by simp
next
  case (Cons m ms)
  obtain r1 s1 where m: "Model_syncIndexes m options s = (r1, s1)"
    by (cases "Model_syncIndexes m options s")
  show ?case
  proof (cases r1)
    case (Inl e)
    with Cons.prems m have "Model_syncIndexes ((m # ms) ! 0) options s = (Inl err, s')" by simp
    moreover have "syncLoop (take 0 (m # ms)) acc options s = (Inr acc, s)" by simp
    ultimately show ?thesis by blast
  next
    case (Inr r)
    with Cons.prems m have
      "syncLoop ms (acc @ [entryOf m r]) options s1 = (Inl err, s')" by (simp add: entryOf_def)
    from Cons.IH [OF this] obtain k R s2 where k: "k < length ms"
      and p: "syncLoop (take k ms) (acc @ [entryOf m r]) options s1 = (Inr R, s2)"
      and f: "Model_syncIndexes (ms ! k) options s2 = (Inl err, s')" by blast
    from p m Inr have "syncLoop (take (Suc k) (m # ms)) acc options s = (Inr R, s2)"
      by (simp add: entryOf_def)
    moreover from f have "Model_syncIndexes ((m # ms) ! Suc k) options s2 = (Inl err, s')" by simp
    moreover from k have "Suc k < length (m # ms)" by simp
    ultimately show ?thesis by blast
  qed
qed

lemma syncLoop_step:
  assumes run: "syncLoop ms [] options s = (Inr res, s')" and k: "k < length ms"
  shows "\<exists>s1 r s2.
     syncLoop (take k ms) [] options s = (Inr (take k res), s1) \<and>
     Model_syncIndexes (ms ! k) options s1 = (Inr r, s2) \<and>
     res ! k = entryOf (ms ! k) r \<and>
     syncLoop (take (Suc k) ms) [] options s = (Inr (take (Suc k) res), s2)"
proof -
  from k have ms: "ms = take k ms @ (ms ! k # drop (Suc k) ms)"
    by (simp add: id_take_nth_drop)
  from run have "syncLoop (take k ms @ (ms ! k # drop (Suc k) ms)) [] options s = (Inr res, s')"
    using ms by simp
  then obtain R1 s1 where
    p: "syncLoop (take k ms) [] options s = (Inr R1, s1)" and
    q: "syncLoop (ms ! k # drop (Suc k) ms) R1 options s1 = (Inr res, s')"
    by (auto simp: syncLoop_append split: prod.splits sum.splits)
  from q obtain r s2 where
    m: "Model_syncIndexes (ms ! k) options s1 = (Inr r, s2)" and
    t: "syncLoop (drop (Suc k) ms) (R1 @ [entryOf (ms ! k) r]) options s2 = (Inr res, s')"
    by (auto simp: entryOf_def split: prod.splits sum.splits)
  from syncLoop_success [OF p] k have lenR: "length R1 = k" by simp
  from syncLoop_success [OF t] lenR have
    tk: "take (Suc k) res = R1 @ [entryOf (ms ! k) r]" and len: "k < length res" by simp_all
  from tk lenR have "take k (take (Suc k) res) = R1" by simp
  then have R1: "take k res = R1" by (simp add: min_def)
  from tk len have "res ! k = (R1 @ [entryOf (ms ! k) r]) ! k"
    by (metis lessI nth_take)
  with lenR [symmetric] have nth: "res ! k = entryOf (ms ! k) r" by simp
  from k have "take (Suc k) ms = take k ms @ [ms ! k]" by (simp add: take_Suc_conv_app_nth)
  with p m tk have "syncLoop (take (Suc k) ms) [] options s = (Inr (take (Suc k) res), s2)"
    by (simp add: syncLoop_append entryOf_def)
  with p R1 m nth show ?thesis by blast
qed


lemma keys_Map_set:
  "map fst (Map_set k v xs) = (if k \<in> set (map fst xs) then map fst xs else map fst xs @ [k])"
  by (induction xs) force+

lemma map_of_Map_set: "map_of (Map_set k v xs) = (map_of xs)(k \<mapsto> v)"
  by (induction xs) (auto simp: fun_eq_iff)

lemma Map_set_twice: "Map_set k v2 (Map_set k v1 xs) = Map_set k v2 xs"
  by (induction xs) auto

lemma set_Map_set: "set (Map_set k v xs) \<subseteq> insert (k, v) (set xs)"
  by (induction xs) (auto split: if_splits)

lemma db_TypedMongo_model:
  "TypedMongo.db (snd (TypedMongo_model tm name options)) = TypedMongo.db tm"
  by (simp add: TypedMongo_model_def Let_def)

lemma models_TypedMongo_model:
  "models (snd (TypedMongo_model tm name options)) =
     Map_set name (new_Model (TypedMongo.db tm) name options) (models tm)"
  by (simp add: TypedMongo_model_def Let_def)

lemma db_declareAll: "TypedMongo.db (declareAll tm decls) = TypedMongo.db tm"
  by (induction tm decls rule: declareAll.induct) (simp_all add: db_TypedMongo_model)

lemma first_occurrences_Cons:
  "rev (remdups (rev (x # xs))) = x # filter (\<lambda>y. y \<noteq> x) (rev (remdups (rev xs)))"
proof -
  have "remdups (ys @ [x]) = filter (\<lambda>y. y \<noteq> x) (remdups ys) @ [x]" for ys
    by (induction ys) auto
  then show ?thesis by (simp add: rev_filter)
qed

lemma keys_declareAll:
  "map fst (models (declareAll tm decls)) =
     map fst (models tm) @
     filter (\<lambda>k. k \<notin> set (map fst (models tm))) (rev (remdups (rev (map fst decls))))"
proof (induction tm decls rule: declareAll.induct)
  case (1 tm)
  then show ?case by simp
next
  case (2 tm name options decls)
  let ?F = "rev (remdups (rev (map fst decls)))"
  let ?ks = "map fst (models tm)"
  have F: "rev (remdups (rev (map fst ((name, options) # decls)))) =
             name # filter (\<lambda>y. y \<noteq> name) ?F"
    using first_occurrences_Cons [of name "map fst decls"] by simp
  show ?case
  proof (cases "name \<in> set ?ks")
    case True
    then have "filter (\<lambda>k. k \<notin> set ?ks) (filter (\<lambda>y. y \<noteq> name) ?F) = filter (\<lambda>k. k \<notin> set ?ks) ?F"
      by (auto intro: filter_cong)
    with True 2 show ?thesis
      unfolding F by (simp add: models_TypedMongo_model keys_Map_set)
  next
    case False
    have "filter (\<lambda>k. k \<notin> set ?ks) (filter (\<lambda>y. y \<noteq> name) ?F) =
            filter (\<lambda>k. k \<notin> set (?ks @ [name])) ?F"
      by (auto intro: filter_cong)
    with False 2 show ?thesis
      unfolding F by (simp add: models_TypedMongo_model keys_Map_set)
  qed
qed

lemma map_of_declareAll:
  "map_of (models (declareAll tm decls)) name =
     (case map_of (rev decls) name of
        Some options \<Rightarrow> Some (new_Model (TypedMongo.db tm) name options)
      | None \<Rightarrow> map_of (models tm) name)"
proof (induction tm decls rule: declareAll.induct)
  case (1 tm)
  then show ?case by simp
next
  case (2 tm n options decls)
  then show ?case
    by (auto simp: models_TypedMongo_model db_TypedMongo_model map_of_Map_set map_add_def
          split: option.splits)
qed

lemma named_declareAll: "named (models tm) \<Longrightarrow> named (models (declareAll tm decls))"
proof (induction tm decls rule: declareAll.induct)
  case (1 tm)
  then show ?case by simp
next
  case (2 tm name options decls)
  have "named (models (snd (TypedMongo_model tm name options)))"
    using 2(2) set_Map_set [of name "new_Model (TypedMongo.db tm) name options" "models tm"]
    by (auto simp: named_def models_TypedMongo_model new_Model_def Db_collection_def getCollection_def)
  from 2(1) [OF this] show ?case by simp
qed

lemma syncLoop_names:
  "syncLoop ms acc options s = (Inr res, s') \<Longrightarrow>
     map SyncIndexesEntry.collectionName res =
       map SyncIndexesEntry.collectionName acc @
       map (\<lambda>m. Collection.collectionName (getCollection m)) ms"
proof (induction ms arbitrary: acc s)
  case Nil
  then show ?case by simp
next
  case (Cons m ms)
  from Cons.prems obtain r s1 where
    "syncLoop ms (acc @ [entryOf m r]) options s1 = (Inr res, s')"
    by (auto simp: entryOf_def split: prod.splits sum.splits)
  from Cons.IH [OF this] show ?case by (simp add: entryOf_def)
qed

lemma named_keys:
  "named entries \<Longrightarrow>
     map (\<lambda>m. Collection.collectionName (getCollection m)) (Map_values entries) = map fst entries"
  by (induction entries) (auto simp: named_def Map_values_def)

lemma Map_set_fresh: "k \<notin> set (map fst xs) \<Longrightarrow> Map_set k v xs = xs @ [(k, v)]"
  by (induction xs) auto

lemma models_declareAll_distinct:
  "distinct (map fst decls) \<Longrightarrow> set (map fst decls) \<inter> set (map fst (models tm)) = {} \<Longrightarrow>
     models (declareAll tm decls) =
       models tm @ map (\<lambda>(name, options). (name, new_Model (TypedMongo.db tm) name options)) decls"
proof (induction tm decls rule: declareAll.induct)
  case (1 tm)
  then show ?case by simp
next
  case (2 tm name options decls)
  let ?tm' = "snd (TypedMongo_model tm name options)"
  from 2(3) have fresh: "name \<notin> set (map fst (models tm))" by auto
  then have m': "models ?tm' = models tm @ [(name, new_Model (TypedMongo.db tm) name options)]"
    by (simp add: models_TypedMongo_model Map_set_fresh)
  from 2(2,3) have "distinct (map fst decls)"
    and "set (map fst decls) \<inter> set (map fst (models ?tm')) = {}"
    by (auto simp: m')
  from 2(1) [OF this] m' show ?case by (simp add: db_TypedMongo_model)
qed

lemma registration_order:
  "distinct (map fst decls) \<Longrightarrow>
     Map_values (models (declareAll (new_TypedMongo d) decls)) =
       map (\<lambda>(name, options). new_Model d name options) decls"
  using models_declareAll_distinct [of decls "new_TypedMongo d"]
  by (simp add: new_TypedMongo_def Map_values_def case_prod_unfold comp_def)

subsection \<open>Reconciliation of all registered collections\<close>

text \<open>
  C6. A registry built by declarations of distinct names holds their models in the
  order of the declarations. \<^verbatim>\<open>TypedMongo.syncIndexes\<close> runs the models in the
  order of the registry. If it
  returns a list, the list has one entry per registered model, and for every position
  \<open>k\<close> the entry at \<open>k\<close> carries the collection name of the \<open>k\<close>-th model and the
  result of that model's \<^verbatim>\<open>syncIndexes\<close>, run in the state left by the first \<open>k\<close>
  models. If it fails with \<open>err\<close>, then some model \<open>k\<close> failed with \<open>err\<close> after the
  models before it had succeeded, and the final state is the one that model's
  \<^verbatim>\<open>syncIndexes\<close> left: no later model has run, and the entries collected so far are
  not returned.
\<close>

theorem TypedMongo_syncIndexes_order:
  assumes run: "TypedMongo_syncIndexes tm options s = (out, s')"
  shows "(distinct (map fst decls) \<longrightarrow>
            Map_values (models (declareAll (new_TypedMongo d) decls)) =
              map (\<lambda>(name, options). new_Model d name options) decls) \<and>
         (case out of
      Inr results \<Rightarrow>
        length results = length (models tm) \<and>
        (\<forall>k<length (models tm). \<exists>s1 r s2.
           TypedMongo_syncIndexes (tm\<lparr>models := take k (models tm)\<rparr>) options s =
             (Inr (take k results), s1) \<and>
           Model_syncIndexes (snd (models tm ! k)) options s1 = (Inr r, s2) \<and>
           results ! k =
             \<lparr>collectionName = Collection.collectionName (getCollection (snd (models tm ! k))),
              created = SyncIndexesResult.created r,
              dropped = SyncIndexesResult.dropped r\<rparr> \<and>
           TypedMongo_syncIndexes (tm\<lparr>models := take (Suc k) (models tm)\<rparr>) options s =
             (Inr (take (Suc k) results), s2))
    | Inl err \<Rightarrow>
        (\<exists>k<length (models tm). \<exists>R s1.
           TypedMongo_syncIndexes (tm\<lparr>models := take k (models tm)\<rparr>) options s = (Inr R, s1) \<and>
           Model_syncIndexes (snd (models tm ! k)) options s1 = (Inl err, s')))"
    (is "?reg \<and> ?main")
proof -
  have main: ?main
  proof (cases out)
    case (Inl err)
    with run have "syncLoop (map snd (models tm)) [] options s = (Inl err, s')"
      by (simp add: TypedMongo_syncIndexes_def Map_values_def)
    from syncLoop_failure [OF this] obtain k R s1 where
      "k < length (models tm)"
      "syncLoop (take k (map snd (models tm))) [] options s = (Inr R, s1)"
      "Model_syncIndexes (map snd (models tm) ! k) options s1 = (Inl err, s')" by auto
    then have "k < length (models tm) \<and>
        TypedMongo_syncIndexes (tm\<lparr>models := take k (models tm)\<rparr>) options s = (Inr R, s1) \<and>
        Model_syncIndexes (snd (models tm ! k)) options s1 = (Inl err, s')"
      by (simp add: TypedMongo_syncIndexes_def Map_values_def take_map)
    with Inl show ?thesis by auto
  next
    case (Inr results)
    with run have loop: "syncLoop (map snd (models tm)) [] options s = (Inr results, s')"
      by (simp add: TypedMongo_syncIndexes_def Map_values_def)
    from syncLoop_success [OF loop] have len: "length results = length (models tm)" by simp
    have "\<exists>s1 r s2.
             TypedMongo_syncIndexes (tm\<lparr>models := take k (models tm)\<rparr>) options s =
               (Inr (take k results), s1) \<and>
             Model_syncIndexes (snd (models tm ! k)) options s1 = (Inr r, s2) \<and>
             results ! k =
               \<lparr>collectionName = Collection.collectionName (getCollection (snd (models tm ! k))),
                created = SyncIndexesResult.created r,
                dropped = SyncIndexesResult.dropped r\<rparr> \<and>
             TypedMongo_syncIndexes (tm\<lparr>models := take (Suc k) (models tm)\<rparr>) options s =
               (Inr (take (Suc k) results), s2)"
      if k: "k < length (models tm)" for k
    proof -
      from k have "k < length (map snd (models tm))" by simp
      from syncLoop_step [OF loop this] obtain s1 r s2 where
        "syncLoop (take k (map snd (models tm))) [] options s = (Inr (take k results), s1)"
        "Model_syncIndexes (map snd (models tm) ! k) options s1 = (Inr r, s2)"
        "results ! k = entryOf (map snd (models tm) ! k) r"
        "syncLoop (take (Suc k) (map snd (models tm))) [] options s =
           (Inr (take (Suc k) results), s2)" by blast
      with k show ?thesis
        by (simp add: TypedMongo_syncIndexes_def Map_values_def take_map entryOf_def)
    qed
    with len Inr show ?thesis by simp
  qed
  have reg: ?reg by (intro impI registration_order)
  from reg main show ?thesis by (rule conjI)
qed

theorem TypedMongo_syncIndexes_order_witness:
  "TypedMongo_syncIndexes (demo_tm [''age_1'']) None (demo_state, []) =
     (Inl (MongoServerError (Some 13) (Some ''Unauthorized'')),
      ([(''users'', [(''_id_'', ''_id''), (''email_1'', ''email'')]),
        (''posts'', [(''_id_'', ''_id''), (''age_1'', ''age''), (''title_1'', ''title'')]),
        (''tags'', [(''_id_'', ''_id'')])],
       [ListIndexes ''users'' None, CreateIndexes ''users'' [(''email_1'', ''email'')],
        DropIndex ''users'' ''name_1'',
        ListIndexes ''posts'' None, CreateIndexes ''posts'' [(''title_1'', ''title'')],
        DropIndex ''posts'' ''age_1''])) \<and>
   Map_values (models (declareAll (new_TypedMongo (memDb []))
       [(''users'', \<lparr>ModelOptions.indexes = Some [(''email_1'', ''email'')]\<rparr>),
        (''posts'', \<lparr>ModelOptions.indexes = Some [(''title_1'', ''title'')]\<rparr>)])) =
     [new_Model (memDb []) ''users'' \<lparr>ModelOptions.indexes = Some [(''email_1'', ''email'')]\<rparr>,
      new_Model (memDb []) ''posts'' \<lparr>ModelOptions.indexes = Some [(''title_1'', ''title'')]\<rparr>] \<and>
   (\<exists>k<length (models (demo_tm [''age_1''])). \<exists>R s1.
      TypedMongo_syncIndexes
        ((demo_tm [''age_1''])\<lparr>models := take k (models (demo_tm [''age_1'']))\<rparr>)
        None (demo_state, []) = (Inr R, s1) \<and>
      fst (Model_syncIndexes (snd (models (demo_tm [''age_1'']) ! k)) None s1) =
        Inl (MongoServerError (Some 13) (Some ''Unauthorized''))) \<and>
   TypedMongo_syncIndexes (demo_tm []) None (demo_state, []) =
     (Inr [\<lparr>collectionName = ''users'', created = [''email_1''], dropped = [''name_1'']\<rparr>,
           \<lparr>collectionName = ''posts'', created = [''title_1''], dropped = [''age_1'']\<rparr>,
           \<lparr>collectionName = ''tags'', created = [''slug_1''], dropped = []\<rparr>],
      ([(''users'', [(''_id_'', ''_id''), (''email_1'', ''email'')]),
        (''posts'', [(''_id_'', ''_id''), (''title_1'', ''title'')]),
        (''tags'', [(''_id_'', ''_id''), (''slug_1'', ''slug'')])],
       [ListIndexes ''users'' None, CreateIndexes ''users'' [(''email_1'', ''email'')],
        DropIndex ''users'' ''name_1'',
        ListIndexes ''posts'' None, CreateIndexes ''posts'' [(''title_1'', ''title'')],
        DropIndex ''posts'' ''age_1'',
        ListIndexes ''tags'' None, CreateIndexes ''tags'' [(''slug_1'', ''slug'')]])) \<and>
   length (models (demo_tm [])) = 3"
proof -
  have runF: "TypedMongo_syncIndexes (demo_tm [''age_1'']) None (demo_state, []) =
     (Inl (MongoServerError (Some 13) (Some ''Unauthorized'')),
      ([(''users'', [(''_id_'', ''_id''), (''email_1'', ''email'')]),
        (''posts'', [(''_id_'', ''_id''), (''age_1'', ''age''), (''title_1'', ''title'')]),
        (''tags'', [(''_id_'', ''_id'')])],
       [ListIndexes ''users'' None, CreateIndexes ''users'' [(''email_1'', ''email'')],
        DropIndex ''users'' ''name_1'',
        ListIndexes ''posts'' None, CreateIndexes ''posts'' [(''title_1'', ''title'')],
        DropIndex ''posts'' ''age_1'']))"
    by (simp add: demo_tm_def demo_state_def sync_defs mem_defs)
  have runS: "TypedMongo_syncIndexes (demo_tm []) None (demo_state, []) =
     (Inr [\<lparr>collectionName = ''users'', created = [''email_1''], dropped = [''name_1'']\<rparr>,
           \<lparr>collectionName = ''posts'', created = [''title_1''], dropped = [''age_1'']\<rparr>,
           \<lparr>collectionName = ''tags'', created = [''slug_1''], dropped = []\<rparr>],
      ([(''users'', [(''_id_'', ''_id''), (''email_1'', ''email'')]),
        (''posts'', [(''_id_'', ''_id''), (''title_1'', ''title'')]),
        (''tags'', [(''_id_'', ''_id''), (''slug_1'', ''slug'')])],
       [ListIndexes ''users'' None, CreateIndexes ''users'' [(''email_1'', ''email'')],
        DropIndex ''users'' ''name_1'',
        ListIndexes ''posts'' None, CreateIndexes ''posts'' [(''title_1'', ''title'')],
        DropIndex ''posts'' ''age_1'',
        ListIndexes ''tags'' None, CreateIndexes ''tags'' [(''slug_1'', ''slug'')]]))"
    by (simp add: demo_tm_def demo_state_def sync_defs mem_defs)
  have "distinct (map fst
       [(''users'', \<lparr>ModelOptions.indexes = Some [(''email_1'', ''email'')]\<rparr>),
        (''posts'', \<lparr>ModelOptions.indexes = Some [(''title_1'', ''title'')]\<rparr>)])" by simp
  from TypedMongo_syncIndexes_order [OF runS, THEN conjunct1, rule_format, OF this,
    of "memDb []"]
  have O: "Map_values (models (declareAll (new_TypedMongo (memDb []))
       [(''users'', \<lparr>ModelOptions.indexes = Some [(''email_1'', ''email'')]\<rparr>),
        (''posts'', \<lparr>ModelOptions.indexes = Some [(''title_1'', ''title'')]\<rparr>)])) =
     [new_Model (memDb []) ''users'' \<lparr>ModelOptions.indexes = Some [(''email_1'', ''email'')]\<rparr>,
      new_Model (memDb []) ''posts'' \<lparr>ModelOptions.indexes = Some [(''title_1'', ''title'')]\<rparr>]"
    by simp
  from TypedMongo_syncIndexes_order [OF runF, THEN conjunct2] have F:
    "\<exists>k<length (models (demo_tm [''age_1''])). \<exists>R s1.
      TypedMongo_syncIndexes
        ((demo_tm [''age_1''])\<lparr>models := take k (models (demo_tm [''age_1'']))\<rparr>)
        None (demo_state, []) = (Inr R, s1) \<and>
      fst (Model_syncIndexes (snd (models (demo_tm [''age_1'']) ! k)) None s1) =
        Inl (MongoServerError (Some 13) (Some ''Unauthorized''))"
    by fastforce
  from TypedMongo_syncIndexes_order [OF runS, THEN conjunct2]
  have S: "length (models (demo_tm [])) = 3"
    by simp
  show ?thesis
    by (intro conjI) (rule runF, rule O, rule F, rule runS, rule S)
qed

text \<open>
  C10. \<^verbatim>\<open>TypedMongo.model\<close> on a name that is registered leaves the order of the
  names as it is, binds the name to the new model and changes no other binding.
  For a registry built by a sequence of declarations, the names stand in the order of
  their first declaration, each bound to the model of its last declaration, and a
  successful \<^verbatim>\<open>TypedMongo.syncIndexes\<close> returns exactly one entry per name, in that
  order.
\<close>

theorem model_redeclaration:
  "(name \<in> set (map fst (models tm)) \<longrightarrow>
      map fst (models (snd (TypedMongo_model tm name options))) = map fst (models tm)) \<and>
   map_of (models (snd (TypedMongo_model tm name options))) name =
      Some (new_Model (TypedMongo.db tm) name options) \<and>
   (\<forall>other. other \<noteq> name \<longrightarrow>
      map_of (models (snd (TypedMongo_model tm name options))) other = map_of (models tm) other) \<and>
   map fst (models (declareAll (new_TypedMongo d) decls)) = rev (remdups (rev (map fst decls))) \<and>
   (\<forall>n opts. map_of (rev decls) n = Some opts \<longrightarrow>
      map_of (models (declareAll (new_TypedMongo d) decls)) n = Some (new_Model d n opts)) \<and>
   (\<forall>results s'.
      TypedMongo_syncIndexes (declareAll (new_TypedMongo d) decls) syncOptions s = (Inr results, s') \<longrightarrow>
        map SyncIndexesEntry.collectionName results = rev (remdups (rev (map fst decls))) \<and>
        distinct (map SyncIndexesEntry.collectionName results))"
proof -
  let ?tm = "declareAll (new_TypedMongo d) decls"
  let ?names = "rev (remdups (rev (map fst decls)))"
  have k1: "name \<in> set (map fst (models tm)) \<longrightarrow>
      map fst (models (snd (TypedMongo_model tm name options))) = map fst (models tm)"
    by (simp add: models_TypedMongo_model keys_Map_set)
  have k2: "map_of (models (snd (TypedMongo_model tm name options))) name =
      Some (new_Model (TypedMongo.db tm) name options)"
    by (simp add: models_TypedMongo_model map_of_Map_set)
  have k3: "\<forall>other. other \<noteq> name \<longrightarrow>
      map_of (models (snd (TypedMongo_model tm name options))) other = map_of (models tm) other"
    by (simp add: models_TypedMongo_model map_of_Map_set)
  have keys: "map fst (models ?tm) = ?names"
    using keys_declareAll [of "new_TypedMongo d" decls] by (simp add: new_TypedMongo_def)
  have last: "\<forall>n opts. map_of (rev decls) n = Some opts \<longrightarrow>
      map_of (models ?tm) n = Some (new_Model d n opts)"
    using map_of_declareAll [of "new_TypedMongo d" decls] by (simp add: new_TypedMongo_def)
  have nm: "named (models ?tm)"
    by (rule named_declareAll) (simp add: named_def new_TypedMongo_def)
  have sync: "map SyncIndexesEntry.collectionName results = ?names \<and>
        distinct (map SyncIndexesEntry.collectionName results)"
    if "TypedMongo_syncIndexes ?tm syncOptions s = (Inr results, s')" for results s'
  proof -
    from that have "syncLoop (Map_values (models ?tm)) [] syncOptions s = (Inr results, s')"
      by (simp add: TypedMongo_syncIndexes_def)
    from syncLoop_names [OF this] named_keys [OF nm] keys
    have "map SyncIndexesEntry.collectionName results = ?names" by simp
    then show ?thesis by simp
  qed
  from k1 k2 k3 keys last sync show ?thesis by blast
qed

theorem model_redeclaration_witness:
  "map fst (models (declareAll (new_TypedMongo (memDb [])) demo_decls)) = [''users'', ''posts''] \<and>
   map_of (models (declareAll (new_TypedMongo (memDb [])) demo_decls)) ''users'' =
     Some (new_Model (memDb []) ''users'' \<lparr>ModelOptions.indexes = Some [(''name_1'', ''name'')]\<rparr>) \<and>
   TypedMongo_syncIndexes (declareAll (new_TypedMongo (memDb [])) demo_decls) None demo_state =
     (Inr [\<lparr>collectionName = ''users'', created = [], dropped = []\<rparr>,
           \<lparr>collectionName = ''posts'', created = [''title_1''], dropped = [''age_1'']\<rparr>],
      [(''users'', [(''_id_'', ''_id''), (''name_1'', ''name'')]),
       (''posts'', [(''_id_'', ''_id''), (''title_1'', ''title'')]),
       (''tags'', [(''_id_'', ''_id'')])]) \<and>
   map fst (models (snd (TypedMongo_model
       (declareAll (new_TypedMongo (memDb [])) (take 2 demo_decls)) ''users''
       \<lparr>ModelOptions.indexes = Some [(''name_1'', ''name'')]\<rparr>))) =
     map fst (models (declareAll (new_TypedMongo (memDb [])) (take 2 demo_decls))) \<and>
   map_of (models (snd (TypedMongo_model
       (declareAll (new_TypedMongo (memDb [])) (take 2 demo_decls)) ''users''
       \<lparr>ModelOptions.indexes = Some [(''name_1'', ''name'')]\<rparr>))) ''posts'' =
     map_of (models (declareAll (new_TypedMongo (memDb [])) (take 2 demo_decls))) ''posts'' \<and>
   map SyncIndexesEntry.collectionName
     [\<lparr>collectionName = ''users'', created = [], dropped = []\<rparr>,
      \<lparr>collectionName = ''posts'', created = [''title_1''], dropped = [''age_1'']\<rparr>] =
     rev (remdups (rev (map fst demo_decls))) \<and>
   distinct (map SyncIndexesEntry.collectionName
     [\<lparr>collectionName = ''users'', created = [], dropped = []\<rparr>,
      \<lparr>collectionName = ''posts'', created = [''title_1''], dropped = [''age_1'']\<rparr>])"
proof -
  let ?tm0 = "declareAll (new_TypedMongo (memDb [])) (take 2 demo_decls)"
  let ?opts = "\<lparr>ModelOptions.indexes = Some [(''name_1'', ''name'')]\<rparr>"
  note T = model_redeclaration [of "''users''" ?tm0 ?opts "memDb []" demo_decls None demo_state]
  note T1 = T [THEN conjunct1]
  note T3 = T [THEN conjunct2, THEN conjunct2, THEN conjunct1]
  note T4 = T [THEN conjunct2, THEN conjunct2, THEN conjunct2, THEN conjunct1]
  note T5 = T [THEN conjunct2, THEN conjunct2, THEN conjunct2, THEN conjunct2, THEN conjunct1]
  note T6 = T [THEN conjunct2, THEN conjunct2, THEN conjunct2, THEN conjunct2, THEN conjunct2]
  have registered: "''users'' \<in> set (map fst (models ?tm0))"
    by (simp add: demo_decls_def new_TypedMongo_def TypedMongo_model_def Let_def)
  have last: "map_of (rev demo_decls) ''users'' = Some ?opts"
    by (simp add: demo_decls_def)
  have names: "rev (remdups (rev (map fst demo_decls))) = [''users'', ''posts'']"
    by (simp add: demo_decls_def)
  have run: "TypedMongo_syncIndexes (declareAll (new_TypedMongo (memDb [])) demo_decls) None
      demo_state =
     (Inr [\<lparr>collectionName = ''users'', created = [], dropped = []\<rparr>,
           \<lparr>collectionName = ''posts'', created = [''title_1''], dropped = [''age_1'']\<rparr>],
      [(''users'', [(''_id_'', ''_id''), (''name_1'', ''name'')]),
       (''posts'', [(''_id_'', ''_id''), (''title_1'', ''title'')]),
       (''tags'', [(''_id_'', ''_id'')])])"
    by (simp add: demo_decls_def demo_state_def sync_defs mem_defs)
  have c1: "map fst (models (snd (TypedMongo_model ?tm0 ''users'' ?opts))) = map fst (models ?tm0)"
    by (rule T1 [rule_format, OF registered])
  have ne: "''posts'' \<noteq> ''users''" by simp
  have c3: "map_of (models (snd (TypedMongo_model ?tm0 ''users'' ?opts))) ''posts'' =
     map_of (models ?tm0) ''posts''"
    by (rule T3 [rule_format, OF ne])
  have c4:
    "map fst (models (declareAll (new_TypedMongo (memDb [])) demo_decls)) = [''users'', ''posts'']"
    using T4 names by (rule trans)
  have c5:
    "map_of (models (declareAll (new_TypedMongo (memDb [])) demo_decls)) ''users'' =
       Some (new_Model (memDb []) ''users'' ?opts)"
    by (rule T5 [rule_format, OF last])
  note c6 = T6 [rule_format, OF run]
  show ?thesis
    by (intro conjI)
      (rule c4, rule c5, rule run, rule c1, rule c3, rule c6 [THEN conjunct1],
       rule c6 [THEN conjunct2])
qed

subsection \<open>Idempotence under the contract of the store\<close>

lemma Map_set_same: "map_of xs k = Some v \<Longrightarrow> Map_set k v xs = xs"
  by (induction xs) (auto split: if_splits)

lemma mem_contract:
  "store_contract (memDb []) ''users'' None [(''email_1'', ''email'')] [''email_1'']
     (mem_present ''users'' [(''email_1'', ''email'')])"
proof -
  let ?d = "(''email_1'', ''email'')"
  have 1: "\<forall>s r s'. listIndexes (memDb []) ''users'' None s = (r, s') \<longrightarrow> s' = s"
    by (auto simp: memDb_def mem_listIndexes_def split: option.splits)
  have 2: "\<forall>s M s'. createIndexes (memDb []) ''users'' [?d] s = (Inr M, s') \<longrightarrow>
        M = [''email_1''] \<and> mem_present ''users'' [?d] s' \<and>
        (\<forall>E. listIndexes (memDb []) ''users'' None s = (Inr E, s) \<longrightarrow>
           (\<exists>E'. listIndexes (memDb []) ''users'' None s' = (Inr E', s') \<and>
              set E' \<subseteq> set E \<union> set [''email_1'']))"
    by (auto simp: memDb_def mem_listIndexes_def mem_createIndexes_def mem_present_def
          map_of_Map_set list_all_iff list_ex_iff Let_def
          split: option.splits if_splits)
  have 3: "\<forall>s. mem_present ''users'' [?d] s \<longrightarrow>
        createIndexes (memDb []) ''users'' [?d] s = (Inr [''email_1''], s) \<and>
        (\<exists>E. listIndexes (memDb []) ''users'' None s = (Inr E, s) \<and> set [''email_1''] \<subseteq> set E)"
    by (auto simp: memDb_def mem_listIndexes_def mem_createIndexes_def mem_present_def
          Map_set_same list_all_iff list_ex_iff Let_def
          split: option.splits if_splits)
  have 4: "\<forall>s n s' E.
        dropIndex (memDb []) ''users'' n s = (Inr (), s') \<and>
        listIndexes (memDb []) ''users'' None s = (Inr E, s) \<longrightarrow>
        (\<exists>E'. listIndexes (memDb []) ''users'' None s' = (Inr E', s') \<and> set E' \<subseteq> set E - {n}) \<and>
        (mem_present ''users'' [?d] s \<and> n \<notin> set [''email_1''] \<longrightarrow> mem_present ''users'' [?d] s')"
    by (auto simp: memDb_def mem_listIndexes_def mem_dropIndex_def mem_present_def
          map_of_Map_set list_all_iff
          split: option.splits if_splits)
  from 1 2 3 4 show ?thesis unfolding store_contract_def by (intro conjI)
qed

lemma contract_list:
  assumes "store_contract d name options descs N present"
    and "listIndexes d name options s = (r, s')"
  shows "s' = s"
proof -
  from assms(1) have "\<forall>s r s'. listIndexes d name options s = (r, s') \<longrightarrow> s' = s"
    unfolding store_contract_def by (elim conjE)
  from this [rule_format, OF assms(2)] show ?thesis .
qed

lemma contract_create:
  assumes "store_contract d name options descs N present"
    and "createIndexes d name descs s = (Inr M, s')"
  shows "M = N" and "present s'"
    and "listIndexes d name options s = (Inr E, s) \<Longrightarrow>
      \<exists>E'. listIndexes d name options s' = (Inr E', s') \<and> set E' \<subseteq> set E \<union> set N"
proof -
  from assms(1) have "\<forall>s M s'. createIndexes d name descs s = (Inr M, s') \<longrightarrow>
        M = N \<and> present s' \<and>
        (\<forall>E. listIndexes d name options s = (Inr E, s) \<longrightarrow>
           (\<exists>E'. listIndexes d name options s' = (Inr E', s') \<and> set E' \<subseteq> set E \<union> set N))"
    unfolding store_contract_def by (elim conjE)
  note x = this [rule_format, OF assms(2)]
  from x [THEN conjunct1] show "M = N" .
  from x [THEN conjunct2, THEN conjunct1] show "present s'" .
  show "\<exists>E'. listIndexes d name options s' = (Inr E', s') \<and> set E' \<subseteq> set E \<union> set N"
    if "listIndexes d name options s = (Inr E, s)"
    using x [THEN conjunct2, THEN conjunct2, rule_format, OF that] .
qed

lemma contract_present:
  assumes "store_contract d name options descs N present" and "present s"
  shows "createIndexes d name descs s = (Inr N, s)"
    and "\<exists>E. listIndexes d name options s = (Inr E, s) \<and> set N \<subseteq> set E"
proof -
  from assms(1) have "\<forall>s. present s \<longrightarrow>
        createIndexes d name descs s = (Inr N, s) \<and>
        (\<exists>E. listIndexes d name options s = (Inr E, s) \<and> set N \<subseteq> set E)"
    unfolding store_contract_def by (elim conjE)
  note x = this [rule_format, OF assms(2)]
  from x [THEN conjunct1] show "createIndexes d name descs s = (Inr N, s)" .
  from x [THEN conjunct2]
  show "\<exists>E. listIndexes d name options s = (Inr E, s) \<and> set N \<subseteq> set E" .
qed

lemma contract_drop:
  assumes "store_contract d name options descs N present"
    and "dropIndex d name n s = (Inr (), s')" and "listIndexes d name options s = (Inr E, s)"
  shows "\<exists>E'. listIndexes d name options s' = (Inr E', s') \<and> set E' \<subseteq> set E - {n}"
    and "present s \<Longrightarrow> n \<notin> set N \<Longrightarrow> present s'"
proof -
  from assms(1) have "\<forall>s n s' E.
        dropIndex d name n s = (Inr (), s') \<and> listIndexes d name options s = (Inr E, s) \<longrightarrow>
        (\<exists>E'. listIndexes d name options s' = (Inr E', s') \<and> set E' \<subseteq> set E - {n}) \<and>
        (present s \<and> n \<notin> set N \<longrightarrow> present s')"
    unfolding store_contract_def by (elim conjE)
  note x = this [rule_format, OF conjI [OF assms(2,3)]]
  from x [THEN conjunct1]
  show "\<exists>E'. listIndexes d name options s' = (Inr E', s') \<and> set E' \<subseteq> set E - {n}" .
  show "present s'" if "present s" and "n \<notin> set N"
    using x [THEN conjunct2, rule_format, OF conjI [OF that]] .
qed



lemma dropLoop_only_id:
  "\<forall>x \<in> set ns. x = ''_id_'' \<Longrightarrow> dropLoop c ns acc s = (Inr acc, s)"
  by (induction ns) auto

lemma dropLoop_contract:
  assumes sc: "store_contract d name options descs N present"
  shows "dropLoop (Db_collection d name) ns acc t = (Inr acc', t') \<Longrightarrow>
     set ns \<inter> set N = {} \<Longrightarrow> present t \<Longrightarrow> listIndexes d name options t = (Inr E, t) \<Longrightarrow>
     present t' \<and>
     (\<exists>E'. listIndexes d name options t' = (Inr E', t') \<and> set E' \<subseteq> set E - (set ns - {''_id_''}))"
proof (induction ns arbitrary: acc t E)
  case Nil
  then show ?case by auto
next
  case (Cons n ns)
  show ?case
  proof (cases "n = ''_id_''")
    case True
    with Cons.prems have "dropLoop (Db_collection d name) ns acc t = (Inr acc', t')"
      and "set ns \<inter> set N = {}" by auto
    from Cons.IH [OF this Cons.prems(3,4)] obtain E' where
      "present t'" "listIndexes d name options t' = (Inr E', t')"
      "set E' \<subseteq> set E - (set ns - {''_id_''})" by blast
    moreover from True have "set (n # ns) - {''_id_''} = set ns - {''_id_''}" by auto
    ultimately show ?thesis by auto
  next
    case False
    with Cons.prems(1) obtain t1 where
      d: "dropIndex d name n t = (Inr (), t1)" and
      r: "dropLoop (Db_collection d name) ns (acc @ [n]) t1 = (Inr acc', t')"
      by (auto simp: Db_collection_def split: prod.splits sum.splits)
    from Cons.prems(2) have n: "n \<notin> set N" and ns: "set ns \<inter> set N = {}" by auto
    from contract_drop(1) [OF sc d Cons.prems(4)] obtain E1 where
      l1: "listIndexes d name options t1 = (Inr E1, t1)" and
      e1: "set E1 \<subseteq> set E - {n}" by blast
    from contract_drop(2) [OF sc d Cons.prems(4) Cons.prems(3) n] have p1: "present t1" .
    from Cons.IH [OF r ns p1 l1] obtain E' where
      p: "present t'" and l: "listIndexes d name options t' = (Inr E', t')" and
      e: "set E' \<subseteq> set E1 - (set ns - {''_id_''})" by blast
    from e e1 False have "set E' \<subseteq> set E - (set (n # ns) - {''_id_''})" by auto
    with p l show ?thesis by blast
  qed
qed

text \<open>
  Idempotence after a run that returned. The store keeps its contract for the
  collection and the desired list, and a first \<^verbatim>\<open>syncIndexes\<close> with a non-empty
  desired list returns a result. Then a second \<^verbatim>\<open>syncIndexes\<close> of the same model, run
  in the state the first one left, returns \<open>{created: [], dropped: []}\<close> and leaves
  that state as it is. The hypothesis on the first run cannot be dropped: see below.
\<close>

lemma syncIndexes_idempotent_after_result:
  assumes sc: "store_contract d name options idxs N present"
    and ne: "idxs \<noteq> []"
    and first: "Model_syncIndexes (new_Model d name \<lparr>ModelOptions.indexes = Some idxs\<rparr>) options s =
                  (Inr r1, s1)"
  shows "Model_syncIndexes (new_Model d name \<lparr>ModelOptions.indexes = Some idxs\<rparr>) options s1 =
           (Inr \<lparr>SyncIndexesResult.created = [], SyncIndexesResult.dropped = []\<rparr>, s1)"
proof -
  from first ne obtain E1 sa where la: "listIndexes d name options s = (Inr E1, sa)"
    by (auto simp: Model_syncIndexes_def new_Model_def Db_collection_def
             split: prod.splits sum.splits)
  from contract_list [OF sc la] la have l: "listIndexes d name options s = (Inr E1, s)" by simp
  from first ne l obtain M1 sb where c: "createIndexes d name idxs s = (Inr M1, sb)"
    by (auto simp: Model_syncIndexes_def new_Model_def Db_collection_def
             split: prod.splits sum.splits)
  note cc = contract_create [OF sc c]
  from cc(1) have M1: "M1 = N" .
  from cc(2) have pb: "present sb" .
  from cc(3) [OF l] obtain Eb where
    lb: "listIndexes d name options sb = (Inr Eb, sb)" and eb: "set Eb \<subseteq> set E1 \<union> set N"
    by blast
  from first ne l c M1 obtain ds where
    dl: "dropLoop (Db_collection d name) (toDropIndexNames E1 N) [] sb = (Inr ds, s1)"
    by (auto simp: Model_syncIndexes_def new_Model_def Db_collection_def
             split: prod.splits sum.splits)
  have "set (toDropIndexNames E1 N) \<inter> set N = {}" by (auto simp: toDropIndexNames_def)
  from dropLoop_contract [OF sc dl this pb lb] obtain E2 where
    p1: "present s1" and l2: "listIndexes d name options s1 = (Inr E2, s1)" and
    e2: "set E2 \<subseteq> set Eb - (set (toDropIndexNames E1 N) - {''_id_''})" by blast
  note cp = contract_present [OF sc p1]
  from cp(1) have c2: "createIndexes d name idxs s1 = (Inr N, s1)" .
  from cp(2) l2 have sub: "set N \<subseteq> set E2" by auto
  from e2 eb have "\<forall>x \<in> set (toDropIndexNames E2 N). x = ''_id_''"
    by (auto simp: toDropIndexNames_def)
  then have d2: "dropLoop (Db_collection d name) (toDropIndexNames E2 N) [] s1 = (Inr [], s1)"
    by (rule dropLoop_only_id)
  from sub have cr: "createdIndexNames E2 N = []"
    by (auto simp: createdIndexNames_def filter_empty_conv)
  from ne l2 c2 d2 cr show ?thesis
    by (simp add: Model_syncIndexes_def new_Model_def Db_collection_def)
qed

lemma syncIndexes_idempotent_after_result_instance:
  "store_contract (memDb []) ''users'' None [(''email_1'', ''email'')] [''email_1'']
     (mem_present ''users'' [(''email_1'', ''email'')]) \<and>
   Model_syncIndexes
     (new_Model (memDb []) ''users'' \<lparr>ModelOptions.indexes = Some [(''email_1'', ''email'')]\<rparr>)
     None [(''users'', [(''_id_'', ''_id''), (''name_1'', ''name''), (''age_1'', ''age'')])] =
     (Inr \<lparr>SyncIndexesResult.created = [''email_1''],
           SyncIndexesResult.dropped = [''name_1'', ''age_1'']\<rparr>,
      [(''users'', [(''_id_'', ''_id''), (''email_1'', ''email'')])]) \<and>
   Model_syncIndexes
     (new_Model (memDb []) ''users'' \<lparr>ModelOptions.indexes = Some [(''email_1'', ''email'')]\<rparr>)
     None [(''users'', [(''_id_'', ''_id''), (''email_1'', ''email'')])] =
     (Inr \<lparr>SyncIndexesResult.created = [], SyncIndexesResult.dropped = []\<rparr>,
      [(''users'', [(''_id_'', ''_id''), (''email_1'', ''email'')])])"
proof -
  have ne: "[(''email_1'', ''email'')] \<noteq> ([] :: memIndex list)" by simp
  have first: "Model_syncIndexes
     (new_Model (memDb []) ''users'' \<lparr>ModelOptions.indexes = Some [(''email_1'', ''email'')]\<rparr>)
     None [(''users'', [(''_id_'', ''_id''), (''name_1'', ''name''), (''age_1'', ''age'')])] =
     (Inr \<lparr>SyncIndexesResult.created = [''email_1''],
           SyncIndexesResult.dropped = [''name_1'', ''age_1'']\<rparr>,
      [(''users'', [(''_id_'', ''_id''), (''email_1'', ''email'')])])"
    by (simp add: mem_defs Model_syncIndexes_def toDropIndexNames_def createdIndexNames_def)
  note second = syncIndexes_idempotent_after_result [OF mem_contract ne first]
  show ?thesis
    by (intro conjI) (rule mem_contract, rule first, rule second)
qed

text \<open>
  C7. On a collection that was never created the in-memory store keeps the contract
  (lemma \<open>mem_contract\<close>), and the desired list is non-empty and unchanged. The first
  \<^verbatim>\<open>syncIndexes\<close> is rejected with the \<open>NamespaceNotFound\<close> error of the listing and
  leaves the store as it was; so is the second, run right after it: it does not return
  \<open>{created: [], dropped: []}\<close>. On the recording driver both runs consist of the
  listing alone, so \<^verbatim>\<open>createIndexes\<close> is never issued and the collection is never
  created.
\<close>

theorem syncIndexes_twice_missing_collection:
  "Model_syncIndexes
     (new_Model (memDb []) ''users'' \<lparr>ModelOptions.indexes = Some [(''email_1'', ''email'')]\<rparr>)
     None [] =
     (Inl (MongoServerError (Some 26) (Some ''NamespaceNotFound'')), []) \<and>
   Model_syncIndexes
     (new_Model (memDb []) ''users'' \<lparr>ModelOptions.indexes = Some [(''email_1'', ''email'')]\<rparr>)
     None
     (snd (Model_syncIndexes
        (new_Model (memDb []) ''users''
           \<lparr>ModelOptions.indexes = Some [(''email_1'', ''email'')]\<rparr>) None [])) =
     (Inl (MongoServerError (Some 26) (Some ''NamespaceNotFound'')), []) \<and>
   fst (Model_syncIndexes
     (new_Model (memDb []) ''users'' \<lparr>ModelOptions.indexes = Some [(''email_1'', ''email'')]\<rparr>)
     None
     (snd (Model_syncIndexes
        (new_Model (memDb []) ''users''
           \<lparr>ModelOptions.indexes = Some [(''email_1'', ''email'')]\<rparr>) None []))) \<noteq>
     Inr \<lparr>SyncIndexesResult.created = [], SyncIndexesResult.dropped = []\<rparr> \<and>
   Model_syncIndexes
     (new_Model (traced (memDb [])) ''users''
        \<lparr>ModelOptions.indexes = Some [(''email_1'', ''email'')]\<rparr>)
     None
     (snd (Model_syncIndexes
        (new_Model (traced (memDb [])) ''users''
           \<lparr>ModelOptions.indexes = Some [(''email_1'', ''email'')]\<rparr>) None ([], []))) =
     (Inl (MongoServerError (Some 26) (Some ''NamespaceNotFound'')),
      ([], [ListIndexes ''users'' None, ListIndexes ''users'' None]))"
  by (simp add: mem_defs Model_syncIndexes_def)

end
